theory Spec2Isabelle
  imports Complex_Main "HOL-Library.Multiset" "HOL-Library.Product_Lexorder"
begin

section \<open>JavaScript numbers\<close>

text \<open>
  A JavaScript number is an IEEE 754 double. The model keeps the three special values
  apart and takes a finite double as the real number it denotes: rounding, overflow to
  an infinity and the sign of zero are not modelled. The operations below follow the
  IEEE rules for the special values.
\<close>

datatype jsnum = NaN | NegInf | Fin real | PosInf

fun isNaN :: "jsnum \<Rightarrow> bool" where
  "isNaN NaN = True"
| "isNaN _ = False"

fun isFinite :: "jsnum \<Rightarrow> bool" where
  "isFinite (Fin _) = True"
| "isFinite _ = False"

text \<open>\<open>a < b\<close>: false as soon as one side is NaN.\<close>

fun js_lt :: "jsnum \<Rightarrow> jsnum \<Rightarrow> bool" where
  "js_lt NaN _ = False"
| "js_lt _ NaN = False"
| "js_lt NegInf NegInf = False"
| "js_lt NegInf _ = True"
| "js_lt (Fin x) (Fin y) = (x < y)"
| "js_lt (Fin _) PosInf = True"
| "js_lt (Fin _) NegInf = False"
| "js_lt PosInf _ = False"

definition js_gt :: "jsnum \<Rightarrow> jsnum \<Rightarrow> bool" where
  "js_gt a b = js_lt b a"

fun js_neg :: "jsnum \<Rightarrow> jsnum" where
  "js_neg NaN = NaN"
| "js_neg NegInf = PosInf"
| "js_neg (Fin x) = Fin (- x)"
| "js_neg PosInf = NegInf"

fun js_add :: "jsnum \<Rightarrow> jsnum \<Rightarrow> jsnum" where
  "js_add NaN _ = NaN"
| "js_add _ NaN = NaN"
| "js_add (Fin x) (Fin y) = Fin (x + y)"
| "js_add PosInf NegInf = NaN"
| "js_add NegInf PosInf = NaN"
| "js_add PosInf _ = PosInf"
| "js_add NegInf _ = NegInf"
| "js_add (Fin _) b = b"

definition js_sub :: "jsnum \<Rightarrow> jsnum \<Rightarrow> jsnum" where
  "js_sub a b = js_add a (js_neg b)"

text \<open>The sign of a number that is not NaN: \<open>-1\<close>, \<open>0\<close> or \<open>1\<close>.\<close>

fun js_sign :: "jsnum \<Rightarrow> int" where
  "js_sign NaN = 0"
| "js_sign NegInf = - 1"
| "js_sign (Fin x) = (if x < 0 then - 1 else if x = 0 then 0 else 1)"
| "js_sign PosInf = 1"

definition inf_of_sign :: "int \<Rightarrow> jsnum" where
  "inf_of_sign s = (if s = 0 then NaN else if s < 0 then NegInf else PosInf)"

fun js_mul :: "jsnum \<Rightarrow> jsnum \<Rightarrow> jsnum" where
  "js_mul NaN _ = NaN"
| "js_mul _ NaN = NaN"
| "js_mul (Fin x) (Fin y) = Fin (x * y)"
| "js_mul a b = inf_of_sign (js_sign a * js_sign b)"

text \<open>
  Division. A finite number over zero is an infinity (of the sign of the numerator, the
  zero being taken as \<open>+0\<close>), zero over zero is NaN, a finite number over an infinity is
  zero.
\<close>

fun js_div :: "jsnum \<Rightarrow> jsnum \<Rightarrow> jsnum" where
  "js_div NaN _ = NaN"
| "js_div _ NaN = NaN"
| "js_div (Fin x) (Fin y) = (if y = 0 then inf_of_sign (js_sign (Fin x)) else Fin (x / y))"
| "js_div (Fin _) _ = Fin 0"
| "js_div a (Fin y) = inf_of_sign (js_sign a * (if y < 0 then - 1 else 1))"
| "js_div _ _ = NaN"

text \<open>
  \<open>Math.max(...xs)\<close>: \<open>-Infinity\<close> for no argument, NaN as soon as one argument is
  NaN, the largest argument otherwise.
\<close>

definition js_max2 :: "jsnum \<Rightarrow> jsnum \<Rightarrow> jsnum" where
  "js_max2 a b = (if isNaN a \<or> isNaN b then NaN else if js_lt a b then b else a)"

definition Math_max :: "jsnum list \<Rightarrow> jsnum" where
  "Math_max xs = foldl js_max2 NegInf xs"

text \<open>
  \<open>xs[i]\<close> read as a number: an index past the end gives \<open>undefined\<close>, which
  arithmetic turns into NaN.
\<close>

definition js_index :: "jsnum list \<Rightarrow> nat \<Rightarrow> jsnum" where
  "js_index xs i = (if i < length xs then xs ! i else NaN)"

section \<open>ChromatogramAnalyzer: peaks and area\<close>

text \<open>
  \<open>findPeaks(intensities, threshold = 0.1)\<close>. The loop
  \<open>for (let i = 1; i < intensities.length - 1; i++)\<close> runs while \<open>i + 1 < length\<close>
  (the JavaScript subtraction does not truncate at zero); inside it every index read is
  in range. \<open>peaks.push(i)\<close> appends.
\<close>

function findPeaks_loop :: "jsnum list \<Rightarrow> jsnum \<Rightarrow> nat \<Rightarrow> nat list \<Rightarrow> nat list" where
  "findPeaks_loop intensities minPeakHeight i peaks =
     (if i + 1 < length intensities then
        findPeaks_loop intensities minPeakHeight (i + 1)
          (if js_gt (intensities ! i) minPeakHeight \<and>
              js_gt (intensities ! i) (intensities ! (i - 1)) \<and>
              js_gt (intensities ! i) (intensities ! (i + 1))
           then peaks @ [i] else peaks)
      else peaks)"
  by pat_completeness auto
termination
  by (relation "measure (\<lambda>(intensities, m, i, peaks). length intensities - i)") auto

definition findPeaks :: "jsnum list \<Rightarrow> jsnum \<Rightarrow> nat list" where
  "findPeaks intensities threshold =
     (let maxIntensity = Math_max intensities;
          minPeakHeight = js_mul maxIntensity threshold
      in findPeaks_loop intensities minPeakHeight 1 [])"


text \<open>
  \<open>calculateArea(times, intensities)\<close>: the loop runs over the indices of \<open>times\<close>
  (written \<open>times'\<close> here, the plain name being a constant of HOL); \<open>intensities\<close> is
  read at the same indices, in range or not.
\<close>

function calculateArea_loop :: "jsnum list \<Rightarrow> jsnum list \<Rightarrow> nat \<Rightarrow> jsnum \<Rightarrow> jsnum" where
  "calculateArea_loop times' intensities i area =
     (if i < length times' then
        (let dt = js_sub (times' ! i) (times' ! (i - 1));
             avgIntensity = js_div (js_add (js_index intensities i) (js_index intensities (i - 1))) (Fin 2)
         in calculateArea_loop times' intensities (i + 1) (js_add area (js_mul dt avgIntensity)))
      else area)"
  by pat_completeness auto
termination
  by (relation "measure (\<lambda>(times', intensities, i, area). length times' - i)") auto

definition calculateArea :: "jsnum list \<Rightarrow> jsnum list \<Rightarrow> jsnum" where
  "calculateArea times' intensities = calculateArea_loop times' intensities 1 (Fin 0)"


section \<open>Rows and JavaScript containers\<close>

text \<open>
  A cell as PapaParse hands it over (\<open>header: true, dynamicTyping: true\<close>): a number,
  a boolean, a string or \<open>null\<close>; \<open>undefined\<close> is what reading a missing key gives.
\<close>

datatype jsval = JUndefined | JNull | JBool bool | JNum jsnum | JStr string

text \<open>
  A plain object with string keys, as the list of its entries in the order
  \<open>Object.keys\<close> and \<open>Object.entries\<close> enumerate them.
\<close>

type_synonym jsobject = "(string \<times> jsval) list"

text \<open>The normalised row that \<open>validateData\<close> returns (the spec's MeasurementRow).\<close>

record row =
  name :: string
  retentionTime :: jsnum
  intensity :: jsnum
  additionalData :: jsobject

text \<open>
  A JavaScript \<open>Map\<close>: its entries in insertion order, no key twice. \<open>set\<close> on a
  present key keeps the key's place; \<open>map_push m k v\<close> is \<open>m.get(k).push(v)\<close> on a
  map of arrays.
\<close>

type_synonym ('k, 'v) jsmap = "('k \<times> 'v) list"

definition map_has :: "('k, 'v) jsmap \<Rightarrow> 'k \<Rightarrow> bool" where
  "map_has m k = (k \<in> set (map fst m))"

definition map_set :: "('k, 'v) jsmap \<Rightarrow> 'k \<Rightarrow> 'v \<Rightarrow> ('k, 'v) jsmap" where
  "map_set m k v =
     (if map_has m k then map (\<lambda>(k', v'). if k' = k then (k', v) else (k', v')) m
      else m @ [(k, v)])"

definition map_push :: "('k, 'v list) jsmap \<Rightarrow> 'k \<Rightarrow> 'v \<Rightarrow> ('k, 'v list) jsmap" where
  "map_push m k v = map (\<lambda>(k', vs). if k' = k then (k', vs @ [v]) else (k', vs)) m"

definition map_keys :: "('k, 'v) jsmap \<Rightarrow> 'k list" where
  "map_keys m = map fst m"

definition map_values :: "('k, 'v) jsmap \<Rightarrow> 'v list" where
  "map_values m = map snd m"

text \<open>
  \<open>Array.prototype.sort(comparefn)\<close>, which is stable: an element moves behind
  another one only when the comparator says it is greater, that is when
  \<open>comparefn(x, y) > 0\<close>; a comparator result of NaN counts as \<open>0\<close>. The model is the
  stable insertion sort; with a comparator that is a consistent ordering every stable
  sort gives the same array.
\<close>

fun insort_cmp :: "('a \<Rightarrow> 'a \<Rightarrow> jsnum) \<Rightarrow> 'a \<Rightarrow> 'a list \<Rightarrow> 'a list" where
  "insort_cmp comparefn x [] = [x]"
| "insort_cmp comparefn x (y # ys) =
     (if js_gt (comparefn x y) (Fin 0) then y # insort_cmp comparefn x ys else x # y # ys)"

definition js_sort :: "('a \<Rightarrow> 'a \<Rightarrow> jsnum) \<Rightarrow> 'a list \<Rightarrow> 'a list" where
  "js_sort comparefn xs = foldr (insort_cmp comparefn) xs []"

section \<open>ChromatogramAnalyzer: the derived series\<close>

text \<open>
  The objects \<open>{times, intensities, labels}\<close> and \<open>{metabolites, intensities}\<close> that
  the two extractions return; the fields carry a prefix because both objects have a
  field \<open>intensities\<close>.
\<close>

record chromatogramData =
  c_times :: "jsnum list"
  c_intensities :: "jsnum list"
  c_labels :: "string list"

record massSpectraData =
  s_metabolites :: "string list"
  s_intensities :: "jsnum list"

definition extractChromatogramData :: "row list \<Rightarrow> chromatogramData" where
  "extractChromatogramData data =
     (let sortedData = js_sort (\<lambda>a b. js_sub (retentionTime a) (retentionTime b)) data
      in \<lparr>c_times = map retentionTime sortedData,
          c_intensities = map intensity sortedData,
          c_labels = map name sortedData\<rparr>)"

text \<open>The body of \<open>data.forEach\<close> in \<open>extractMassSpectraData\<close>.\<close>

definition spectra_step :: "(string, jsnum list) jsmap \<Rightarrow> row \<Rightarrow> (string, jsnum list) jsmap" where
  "spectra_step intensityMap r =
     (let m = (if \<not> map_has intensityMap (name r) then map_set intensityMap (name r) []
               else intensityMap)
      in map_push m (name r) (intensity r))"

text \<open>\<open>intensities.reduce((sum, val) => sum + val, 0) / intensities.length\<close>\<close>

definition average :: "jsnum list \<Rightarrow> jsnum" where
  "average intensities = js_div (foldl js_add (Fin 0) intensities) (Fin (real (length intensities)))"

definition extractMassSpectraData :: "row list \<Rightarrow> massSpectraData" where
  "extractMassSpectraData data =
     (let intensityMap = foldl spectra_step [] data
      in \<lparr>s_metabolites = map_keys intensityMap,
          s_intensities = map average (map_values intensityMap)\<rparr>)"

text \<open>
  \<open>extractMetabolites\<close>: the first row of every name. \<open>row.additionalData || {}\<close> is
  the row's own object, which is never falsy.
\<close>

definition metabolite_step :: "(string, row) jsmap \<Rightarrow> row \<Rightarrow> (string, row) jsmap" where
  "metabolite_step metaboliteMap r =
     (if \<not> map_has metaboliteMap (name r)
      then map_set metaboliteMap (name r)
             \<lparr>name = name r, retentionTime = retentionTime r, intensity = intensity r,
              additionalData = additionalData r\<rparr>
      else metaboliteMap)"

definition extractMetabolites :: "row list \<Rightarrow> row list" where
  "extractMetabolites data = map_values (foldl metabolite_step [] data)"

text \<open>
  \<open>processData(data)\<close>. The argument is an array of rows, or a value that is not
  iterable (\<open>null\<close>, \<open>undefined\<close>), written \<open>None\<close>: then the first statement of an
  extraction (\<open>[...data]\<close>, \<open>data.forEach\<close>) throws a TypeError. The \<open>catch\<close> block
  logs the error and throws it again.
\<close>

datatype exn = TypeError

record processed =
  chromatogramData :: chromatogramData
  massSpectraData :: massSpectraData
  metabolites :: "row list"

definition on_array :: "('a list \<Rightarrow> 'b) \<Rightarrow> 'a list option \<Rightarrow> exn + 'b" where
  "on_array f data = (case data of None \<Rightarrow> Inl TypeError | Some rows \<Rightarrow> Inr (f rows))"

definition processData_try :: "row list option \<Rightarrow> exn + processed" where
  "processData_try data =
     (case on_array extractChromatogramData data of
        Inl e \<Rightarrow> Inl e
      | Inr c \<Rightarrow>
         (case on_array extractMassSpectraData data of
            Inl e \<Rightarrow> Inl e
          | Inr s \<Rightarrow>
             (case on_array extractMetabolites data of
                Inl e \<Rightarrow> Inl e
              | Inr ms \<Rightarrow> Inr \<lparr>chromatogramData = c, massSpectraData = s, metabolites = ms\<rparr>)))"

definition processData :: "row list option \<Rightarrow> exn + processed" where
  "processData data =
     (case processData_try data of
        Inl error \<Rightarrow> Inl error
      | Inr result \<Rightarrow> Inr result)"

text \<open>
  For the proofs about the sort: the comparator of \<open>extractChromatogramData\<close> by name,
  and an order-preserving, injective key into a linear order, on which the comparator
  agrees with the order as long as no retention time is NaN.
\<close>

fun rt_key :: "jsnum \<Rightarrow> nat \<times> real" where
  "rt_key NegInf = (0, 0)"
| "rt_key (Fin x) = (1, x)"
| "rt_key PosInf = (2, 0)"
| "rt_key NaN = (3, 0)"

definition time_key :: "row \<Rightarrow> nat \<times> real" where
  "time_key r = rt_key (retentionTime r)"

definition by_time :: "row \<Rightarrow> row \<Rightarrow> jsnum" where
  "by_time a b = js_sub (retentionTime a) (retentionTime b)"

section \<open>FileHandler: validateData\<close>

























section \<open>MetaboliteMapper: pathway information\<close>

text \<open>
  The static table of \<open>#simulatePathwayLookup\<close>. Labels are byte strings: the three
  characters of the reaction labels outside ASCII (the arrow, the double arrow and the
  Greek alpha) are given by their UTF-8 bytes. The simulated delay is not modelled;
  \<open>getPathwayInformation\<close> returns the entry, or \<open>null\<close> (here \<open>None\<close>) for an unknown
  name.
\<close>

record pathwayInfo =
  pi_metabolite :: string
  pi_pathway :: string
  pi_reactions :: "string list"

definition arrow :: string where
  "arrow = [CHR 0xE2, CHR 0x86, CHR 0x92]"

definition darrow :: string where
  "darrow = [CHR 0xE2, CHR 0x86, CHR 0x94]"

definition alpha :: string where
  "alpha = [CHR 0xCE, CHR 0xB1]"

definition pathways :: "(string \<times> pathwayInfo) list" where
  "pathways =
    [(''Glucose'', \<lparr>pi_metabolite = ''Glucose'', pi_pathway = ''Glycolysis'',
        pi_reactions = [''Glucose '' @ arrow @ '' Glucose-6P'',
                        ''Glucose-6P '' @ arrow @ '' Fructose-6P'']\<rparr>),
     (''Fructose'', \<lparr>pi_metabolite = ''Fructose'', pi_pathway = ''Glycolysis'',
        pi_reactions = [''Fructose '' @ arrow @ '' Fructose-6P'',
                        ''Fructose-6P '' @ arrow @ '' Fructose-1,6BP'']\<rparr>),
     (''Pyruvate'', \<lparr>pi_metabolite = ''Pyruvate'', pi_pathway = ''TCA Cycle'',
        pi_reactions = [''Pyruvate '' @ arrow @ '' Acetyl-CoA'',
                        ''Acetyl-CoA + Oxaloacetate '' @ arrow @ '' Citrate'']\<rparr>),
     (''Citrate'', \<lparr>pi_metabolite = ''Citrate'', pi_pathway = ''TCA Cycle'',
        pi_reactions = [''Citrate '' @ arrow @ '' Isocitrate'',
                        ''Isocitrate '' @ arrow @ '' '' @ alpha @ ''-Ketoglutarate'']\<rparr>),
     (''Malate'', \<lparr>pi_metabolite = ''Malate'', pi_pathway = ''TCA Cycle'',
        pi_reactions = [''Malate '' @ arrow @ '' Oxaloacetate'',
                        ''Oxaloacetate + Acetyl-CoA '' @ arrow @ '' Citrate'']\<rparr>),
     (''Lactate'', \<lparr>pi_metabolite = ''Lactate'', pi_pathway = ''Fermentation'',
        pi_reactions = [''Pyruvate '' @ arrow @ '' Lactate'']\<rparr>),
     (''Succinate'', \<lparr>pi_metabolite = ''Succinate'', pi_pathway = ''TCA Cycle'',
        pi_reactions = [''Succinate '' @ arrow @ '' Fumarate'',
                        ''Fumarate '' @ arrow @ '' Malate'']\<rparr>),
     (''Fumarate'', \<lparr>pi_metabolite = ''Fumarate'', pi_pathway = ''TCA Cycle'',
        pi_reactions = [''Fumarate '' @ arrow @ '' Malate'',
                        ''Malate '' @ arrow @ '' Oxaloacetate'']\<rparr>),
     (''Alpha-Ketoglutarate'', \<lparr>pi_metabolite = ''Alpha-Ketoglutarate'', pi_pathway = ''TCA Cycle'',
        pi_reactions = [alpha @ ''-Ketoglutarate '' @ arrow @ '' Succinyl-CoA'',
                        ''Succinyl-CoA '' @ arrow @ '' Succinate'']\<rparr>),
     (''Oxaloacetate'', \<lparr>pi_metabolite = ''Oxaloacetate'', pi_pathway = ''TCA Cycle'',
        pi_reactions = [''Oxaloacetate + Acetyl-CoA '' @ arrow @ '' Citrate'']\<rparr>),
     (''Alanine'', \<lparr>pi_metabolite = ''Alanine'', pi_pathway = ''Amino Acid Metabolism'',
        pi_reactions = [''Pyruvate + Glutamate '' @ darrow @ '' Alanine + '' @ alpha @ ''-Ketoglutarate'']\<rparr>),
     (''Glutamate'', \<lparr>pi_metabolite = ''Glutamate'', pi_pathway = ''Amino Acid Metabolism'',
        pi_reactions = [alpha @ ''-Ketoglutarate + NH4+ '' @ darrow @ '' Glutamate'']\<rparr>),
     (''Aspartate'', \<lparr>pi_metabolite = ''Aspartate'', pi_pathway = ''Amino Acid Metabolism'',
        pi_reactions = [''Oxaloacetate + Glutamate '' @ darrow @ '' Aspartate + '' @ alpha @ ''-Ketoglutarate'']\<rparr>),
     (''Glycine'', \<lparr>pi_metabolite = ''Glycine'', pi_pathway = ''Amino Acid Metabolism'',
        pi_reactions = [''Serine '' @ arrow @ '' Glycine + CH2=THF'']\<rparr>),
     (''Serine'', \<lparr>pi_metabolite = ''Serine'', pi_pathway = ''Amino Acid Metabolism'',
        pi_reactions = [''3-Phosphoglycerate '' @ arrow @ '' 3-Phosphoserine '' @ arrow @ '' Serine'']\<rparr>)]"

definition getPathwayInformation :: "string \<Rightarrow> pathwayInfo option" where
  "getPathwayInformation metaboliteName = map_of pathways metaboliteName"

section \<open>NetworkVisualizer: the pathway graph\<close>

text \<open>
  An element of the graph as it is handed to \<open>cy.add\<close>: a node
  \<open>{id, label, type}\<close> or an edge \<open>{id, source, target, label}\<close>.
\<close>

datatype element =
  Node string string string
| Edge string string string string

fun el_id :: "element \<Rightarrow> string" where
  "el_id (Node i _ _) = i"
| "el_id (Edge i _ _ _) = i"

type_synonym graph = "element list"

definition hasElementWithId :: "graph \<Rightarrow> string \<Rightarrow> bool" where
  "hasElementWithId g i = (i \<in> set (map el_id g))"

text \<open>
  Modelled from the spec: \<open>cy.add\<close> belongs to the Cytoscape library, which is not
  part of the sources. The spec says of it: node and edge addition is idempotent by id,
  re-adding an existing id is a no-op. Nodes and edges share one space of ids, as
  \<open>cy.$id\<close> in the source finds either. Elements are kept in the order they were added.
\<close>

definition cy_add1 :: "graph \<Rightarrow> element \<Rightarrow> graph" where
  "cy_add1 g e = (if hasElementWithId g (el_id e) then g else g @ [e])"

definition cy_add :: "graph \<Rightarrow> element list \<Rightarrow> graph" where
  "cy_add g es = foldl cy_add1 g es"

text \<open>\<open>cy.$id(id).length\<close>: the number of elements with that id.\<close>

definition cy_id_length :: "graph \<Rightarrow> string \<Rightarrow> nat" where
  "cy_id_length g i = length (filter (\<lambda>e. el_id e = i) g)"

text \<open>A number in a template string: its decimal digits.\<close>

fun digit_string :: "nat \<Rightarrow> string" where
  "digit_string n =
     (if n < 10 then [char_of (48 + n)]
      else digit_string (n div 10) @ [char_of (48 + n mod 10)])"

declare digit_string.simps [simp del]

text \<open>
  The static state of \<open>NetworkVisualizer\<close>: the flag \<open>initialized\<close> and the Cytoscape
  instance \<open>cy\<close>, \<open>null\<close> before \<open>initialize\<close>. The layout is presentation and is left
  out.
\<close>

record visualizer =
  initialized :: bool
  cy :: "graph option"

text \<open>The body of \<open>reactions.forEach((reaction, index) => ...)\<close>, from \<open>index\<close> on.\<close>

fun add_reactions :: "string \<Rightarrow> nat \<Rightarrow> string list \<Rightarrow> graph \<Rightarrow> graph" where
  "add_reactions metabolite index [] g = g"
| "add_reactions metabolite index (reaction # reactions) g =
     (let reactionId = ''r_'' @ metabolite @ ''_'' @ digit_string index;
          g1 = cy_add g [Node reactionId reaction ''reaction''];
          g2 = cy_add g1 [Edge (''e_'' @ metabolite @ ''_reaction_'' @ digit_string index)
                               (''m_'' @ metabolite) reactionId ''participates in'']
      in add_reactions metabolite (index + 1) reactions g2)"

text \<open>
  \<open>addPathwayConnections(pathwayInfo)\<close> on the graph of a live instance. \<open>if (pathway)\<close>
  holds for a non-empty string; \<open>if (reactions)\<close> holds for every array.
\<close>

definition addPathwayConnections_graph :: "pathwayInfo \<Rightarrow> graph \<Rightarrow> graph" where
  "addPathwayConnections_graph pathwayInfo g =
     (let metabolite = pi_metabolite pathwayInfo;
          pathway = pi_pathway pathwayInfo;
          reactions = pi_reactions pathwayInfo;
          g1 = (if pathway \<noteq> [] then
                  (let g' = (if cy_id_length g (''p_'' @ pathway) = 0
                             then cy_add g [Node (''p_'' @ pathway) pathway ''pathway'']
                             else g)
                   in cy_add g' [Edge (''e_'' @ metabolite @ ''_'' @ pathway)
                                      (''m_'' @ metabolite) (''p_'' @ pathway) ''part of''])
                else g)
      in add_reactions metabolite 0 reactions g1)"

definition addPathwayConnections :: "pathwayInfo \<Rightarrow> visualizer \<Rightarrow> visualizer" where
  "addPathwayConnections pathwayInfo v =
     (case cy v of
        None \<Rightarrow> v
      | Some g \<Rightarrow> v\<lparr>cy := Some (addPathwayConnections_graph pathwayInfo g)\<rparr>)"

text \<open>
  \<open>addMetaboliteToPathway(metaboliteName, geneLocusId)\<close>, run to its end: the
  \<open>await\<close> of the pathway lookup is taken as a call that returns.
\<close>

definition addMetaboliteToPathway :: "string \<Rightarrow> string \<Rightarrow> visualizer \<Rightarrow> visualizer" where
  "addMetaboliteToPathway metaboliteName geneLocusId v =
     (case cy v of
        None \<Rightarrow> v
      | Some g \<Rightarrow>
          if \<not> initialized v then v
          else
            (let metaboliteNode = Node (''m_'' @ metaboliteName) metaboliteName ''metabolite'';
                 geneNode = Node (''g_'' @ geneLocusId) geneLocusId ''gene'';
                 edge = Edge (''e_'' @ metaboliteName @ ''_'' @ geneLocusId)
                             (''m_'' @ metaboliteName) (''g_'' @ geneLocusId) ''associated with'';
                 v1 = v\<lparr>cy := Some (cy_add g [metaboliteNode, geneNode, edge])\<rparr>
             in case getPathwayInformation metaboliteName of
                  None \<Rightarrow> v1
                | Some pathwayInfo \<Rightarrow> addPathwayConnections pathwayInfo v1))"

text \<open>\<open>clear()\<close>: \<open>cy.elements().remove()\<close>.\<close>

definition clear :: "visualizer \<Rightarrow> visualizer" where
  "clear v = (case cy v of None \<Rightarrow> v | Some g \<Rightarrow> v\<lparr>cy := Some []\<rparr>)"







section \<open>PubChemIntegration: cached compound lookup\<close>

text \<open>
  The answer of the network to one request: \<open>fetch\<close> rejects, or it gives a response
  with a status code and a body. Of the body the code reads two things only:
  \<open>IdentifierList.CID\<close> (absent list, list without \<open>CID\<close>, or the array of numbers) and
  \<open>PropertyTable.Properties\<close> (absent, or the array of property objects); a body that is
  not JSON makes \<open>response.json()\<close> throw.
\<close>

datatype body =
  InvalidJson
| Json "nat list option option" "jsobject list option"

datatype response = Rejected | Status nat body

text \<open>
  The network is a parameter: the answer may depend on the URL and on how many requests
  went out before.
\<close>

type_synonym network = "nat \<Rightarrow> string \<Rightarrow> response"

datatype failure = NetworkFailure | HttpFailure nat | JsonFailure | TypeFailure

text \<open>
  The object \<open>fetchCompoundInfo\<close> returns: \<open>id\<close> and \<open>name\<close>, and the optional fields
  \<open>url\<close>, \<open>error\<close>, \<open>properties\<close> and \<open>smiles\<close> (\<open>None\<close> when the field is absent).
\<close>

record compoundInfo =
  ci_id :: string
  ci_name :: string
  ci_url :: "string option"
  ci_error :: "string option"
  ci_properties :: "jsobject option"
  ci_smiles :: "jsval option"

text \<open>
  The static state: the cache, and the URLs handed to \<open>#queueRequest\<close> so far, in order
  (every request that is enqueued goes out, see the queue below).
\<close>

record pubchem =
  cache :: "(string, compoundInfo) jsmap"
  requests :: "string list"






text \<open>
  \<open>#queueRequest(url)\<close> with its answer: the URL is enqueued; the promise rejects when
  \<open>fetch\<close> rejects or the status is not ok (200 to 299), and resolves with the response
  otherwise. The call is taken to its end: the \<open>await\<close> returns.
\<close>

definition queueRequest :: "network \<Rightarrow> string \<Rightarrow> pubchem \<Rightarrow> (failure + body) \<times> pubchem" where
  "queueRequest net url st =
     (let st' = st\<lparr>requests := requests st @ [url]\<rparr>
      in case net (length (requests st)) url of
           Rejected \<Rightarrow> (Inl NetworkFailure, st')
         | Status code b \<Rightarrow>
             if 200 \<le> code \<and> code \<le> 299 then (Inr b, st') else (Inl (HttpFailure code), st'))"

text \<open>
  \<open>data.IdentifierList?.CID[0]?.toString() || null\<close>: an absent list or an empty array
  give \<open>null\<close>, a list without \<open>CID\<close> throws a TypeError, a number gives its decimal
  digits (never the empty string).
\<close>

definition first_cid :: "body \<Rightarrow> failure + string option" where
  "first_cid b =
     (case b of
        InvalidJson \<Rightarrow> Inl JsonFailure
      | Json None _ \<Rightarrow> Inr None
      | Json (Some None) _ \<Rightarrow> Inl TypeFailure
      | Json (Some (Some [])) _ \<Rightarrow> Inr None
      | Json (Some (Some (c # _))) _ \<Rightarrow> Inr (Some (digit_string c)))"







text \<open>\<open>clearCache()\<close>\<close>

definition clearCache :: "pubchem \<Rightarrow> pubchem" where
  "clearCache st = st\<lparr>cache := []\<rparr>"





section \<open>PubChemIntegration: the request queue\<close>

text \<open>
  \<open>#processQueue\<close> is an asynchronous function: a call runs until its first \<open>await\<close>
  and is resumed later, when what it awaits has settled; in between, other code may call
  \<open>#queueRequest\<close>. The model is a transition system. Its state holds the two static
  fields, the calls of \<open>#processQueue\<close> that are suspended (each at the \<open>await\<close> of a
  \<open>fetch\<close>, or at the \<open>await\<close> of the timer, with the time before which the timer
  cannot fire), the clock in milliseconds, and two histories kept for the proofs: the
  URLs in the order they were enqueued, and the URLs \<open>fetch\<close> was called with, each with
  the time of the call.
\<close>

datatype worker = AwaitFetch string | AwaitDelay nat

record limiter =
  requestQueue :: "string list"
  isProcessingQueue :: bool
  workers :: "worker list"
  now :: nat
  enqueued :: "string list"
  dispatched :: "(string \<times> nat) list"

definition requestDelay :: nat where
  "requestDelay = 300"

definition limiter_init :: limiter where
  "limiter_init =
     \<lparr>requestQueue = [], isProcessingQueue = False, workers = [], now = 0,
      enqueued = [], dispatched = []\<rparr>"

text \<open>
  The head of the \<open>while\<close> loop up to the next \<open>await\<close>: with a request in the queue,
  it is shifted out and \<open>fetch\<close> is called, and the call is suspended on it; with the
  queue empty, the flag is reset and the call ends.
\<close>

definition loop_head :: "limiter \<Rightarrow> worker option \<times> limiter" where
  "loop_head s =
     (case requestQueue s of
        [] \<Rightarrow> (None, s\<lparr>isProcessingQueue := False\<rparr>)
      | url # rest \<Rightarrow>
          (Some (AwaitFetch url),
           s\<lparr>requestQueue := rest, dispatched := dispatched s @ [(url, now s)]\<rparr>))"

text \<open>A call of \<open>#processQueue()\<close>, up to its first \<open>await\<close> or its end.\<close>

definition processQueue :: "limiter \<Rightarrow> limiter" where
  "processQueue s =
     (if isProcessingQueue s then s
      else
        (case loop_head (s\<lparr>isProcessingQueue := True\<rparr>) of
           (None, s') \<Rightarrow> s'
         | (Some w, s') \<Rightarrow> s'\<lparr>workers := workers s' @ [w]\<rparr>))"

text \<open>\<open>#queueRequest(url)\<close>: the request is pushed and \<open>#processQueue\<close> is called.\<close>

definition queueRequest_call :: "string \<Rightarrow> limiter \<Rightarrow> limiter" where
  "queueRequest_call url s =
     processQueue (s\<lparr>requestQueue := requestQueue s @ [url], enqueued := enqueued s @ [url]\<rparr>)"

text \<open>
  What can happen: some caller enqueues a request; the \<open>fetch\<close> a suspended call awaits
  settles (with a response or a failure: the promise of the request is resolved or
  rejected, and the call goes on to set the timer of \<open>requestDelay\<close> milliseconds); the
  timer a suspended call awaits fires, not before its time, and the call goes back to
  the head of the loop; time passes. An event that cannot happen in a state leaves it
  as it is.
\<close>

datatype event = Enqueue string | FetchSettled nat | TimerFired nat | Tick nat

fun step :: "event \<Rightarrow> limiter \<Rightarrow> limiter" where
  "step (Enqueue url) s = queueRequest_call url s"
| "step (FetchSettled i) s =
     (if i < length (workers s) then
        (case workers s ! i of
           AwaitFetch url \<Rightarrow> s\<lparr>workers := (workers s)[i := AwaitDelay (now s + requestDelay)]\<rparr>
         | AwaitDelay d \<Rightarrow> s)
      else s)"
| "step (TimerFired i) s =
     (if i < length (workers s) then
        (case workers s ! i of
           AwaitFetch url \<Rightarrow> s
         | AwaitDelay d \<Rightarrow>
             if d \<le> now s then
               (case loop_head s of
                  (None, s') \<Rightarrow> s'\<lparr>workers := take i (workers s') @ drop (i + 1) (workers s')\<rparr>
                | (Some w, s') \<Rightarrow> s'\<lparr>workers := (workers s')[i := w]\<rparr>)
             else s)
      else s)"
| "step (Tick d) s = s\<lparr>now := now s + d\<rparr>"

definition run :: "event list \<Rightarrow> limiter \<Rightarrow> limiter" where
  "run es s = foldl (\<lambda>s e. step e s) s es"

text \<open>The requests in flight: those whose \<open>fetch\<close> has been called and has not settled.\<close>

fun in_flight_of :: "worker \<Rightarrow> string list" where
  "in_flight_of (AwaitFetch url) = [url]"
| "in_flight_of (AwaitDelay d) = []"

definition in_flight :: "limiter \<Rightarrow> string list" where
  "in_flight s = concat (map in_flight_of (workers s))"

text \<open>Two dispatches one after the other are at least \<open>requestDelay\<close> apart.\<close>

definition spaced :: "string \<times> nat \<Rightarrow> string \<times> nat \<Rightarrow> bool" where
  "spaced a b = (snd a + requestDelay \<le> snd b)"

text \<open>
  The invariant of the proofs: the flag is set exactly while a call is suspended, and
  at most one is; the history of dispatches followed by the queue is the history of
  enqueueing; dispatches are spaced and in the past; the last dispatch is at least
  \<open>requestDelay\<close> before the time of the pending timer, and before the present when no
  call is suspended.
\<close>

fun timing_ok :: "worker list \<Rightarrow> nat \<Rightarrow> nat \<Rightarrow> bool" where
  "timing_ok [] t n = (t + requestDelay \<le> n)"
| "timing_ok (AwaitFetch url # ws) t n = True"
| "timing_ok (AwaitDelay d # ws) t n = (t + requestDelay \<le> d)"

definition limiter_inv :: "limiter \<Rightarrow> bool" where
  "limiter_inv s =
     (isProcessingQueue s = (workers s \<noteq> []) \<and>
      length (workers s) \<le> 1 \<and>
      map fst (dispatched s) @ requestQueue s = enqueued s \<and>
      successively spaced (dispatched s) \<and>
      list_all (\<lambda>d. snd d \<le> now s) (dispatched s) \<and>
      (dispatched s = [] \<or> timing_ok (workers s) (snd (last (dispatched s))) (now s)))"

text \<open>The URL an event enqueues, if it is one that enqueues.\<close>

fun enqueue_url :: "event \<Rightarrow> string list" where
  "enqueue_url (Enqueue url) = [url]"
| "enqueue_url _ = []"

section \<open>Peak detection: proofs\<close>

declare findPeaks_loop.simps [simp del]











section \<open>Area under the curve: proofs\<close>

declare calculateArea_loop.simps [simp del]





section \<open>Chromatogram series: proofs\<close>

lemma rt_key_inj: "rt_key a = rt_key b \<longleftrightarrow> a = b"
  by (cases a; cases b) simp_all

lemma js_sub_gt_key:
  "\<not> isNaN a \<Longrightarrow> \<not> isNaN b \<Longrightarrow> js_gt (js_sub a b) (Fin 0) \<longleftrightarrow> rt_key b < rt_key a"
  by (cases a; cases b) (simp_all add: js_gt_def js_sub_def)

lemma js_lt_key:
  "\<not> isNaN a \<Longrightarrow> \<not> isNaN b \<Longrightarrow> js_lt a b \<longleftrightarrow> rt_key a < rt_key b"
  by (cases a; cases b) simp_all

lemma insort_cmp_key:
  assumes "\<not> isNaN (retentionTime x)" "\<forall>r\<in>set ys. \<not> isNaN (retentionTime r)"
  shows "insort_cmp by_time x ys = insort_key time_key x ys"
  using assms
  by (induction ys) (auto simp: by_time_def time_key_def js_sub_gt_key not_less)

lemma set_insort_cmp: "set (insort_cmp c x ys) = insert x (set ys)"
  by (induction ys) auto

lemma set_js_sort: "set (js_sort c xs) = set xs"
  by (induction xs) (simp_all add: js_sort_def set_insort_cmp)

lemma js_sort_key:
  assumes "\<forall>r\<in>set data. \<not> isNaN (retentionTime r)"
  shows "js_sort by_time data = sort_key time_key data"
  using assms
proof (induction data)
  case Nil
  then show ?case by (simp add: js_sort_def)
next
  case (Cons x xs)
  then have IH: "js_sort by_time xs = sort_key time_key xs" by simp
  have "js_sort by_time (x # xs) = insort_cmp by_time x (js_sort by_time xs)"
    by (simp add: js_sort_def)
  also have "\<dots> = insort_key time_key x (js_sort by_time xs)"
    using Cons.prems by (intro insort_cmp_key) (simp_all add: set_js_sort)
  finally show ?case using IH by simp
qed


lemma extract_sorted:
  "extractChromatogramData data =
     \<lparr>c_times = map retentionTime (js_sort by_time data),
      c_intensities = map intensity (js_sort by_time data),
      c_labels = map name (js_sort by_time data)\<rparr>"
  by (simp add: extractChromatogramData_def by_time_def [abs_def] Let_def)

lemma times_sorted:
  assumes "\<forall>r\<in>set data. \<not> isNaN (retentionTime r)"
  shows "sorted_wrt (\<lambda>a b. \<not> js_lt b a) (map retentionTime (sort_key time_key data))"
proof -
  have "sorted (map time_key (sort_key time_key data))" by simp
  then have "sorted_wrt (\<lambda>a b. time_key a \<le> time_key b) (sort_key time_key data)"
    by (simp add: sorted_map)
  then have "sorted_wrt (\<lambda>a b. \<not> js_lt (retentionTime b) (retentionTime a)) (sort_key time_key data)"
  proof (rule sorted_wrt_mono_rel [rotated])
    fix a b assume "a \<in> set (sort_key time_key data)" "b \<in> set (sort_key time_key data)"
      and "time_key a \<le> time_key b"
    then show "\<not> js_lt (retentionTime b) (retentionTime a)"
      using assms by (simp add: js_lt_key time_key_def not_less)
  qed
  then show ?thesis by (simp add: sorted_wrt_map)
qed

lemma sort_key_perm_eq:
  fixes f :: "'a \<Rightarrow> 'k::linorder"
  assumes "mset ys = mset xs" "\<And>k. filter (\<lambda>x. f x = k) ys = filter (\<lambda>x. f x = k) xs"
  shows "sort_key f ys = sort_key f xs"
proof (rule properties_for_sort_key)
  show "mset (sort_key f xs) = mset ys" using assms(1) by simp
  show "sorted (map f (sort_key f xs))" by simp
  fix k assume "k \<in> set (sort_key f xs)"
  have "filter (\<lambda>x. f k = f x) (sort_key f xs) = filter (\<lambda>x. f x = f k) (sort_key f xs)"
    by (rule filter_cong) auto
  also have "\<dots> = filter (\<lambda>x. f x = f k) xs" by (rule sort_key_stable)
  also have "\<dots> = filter (\<lambda>x. f x = f k) ys" using assms(2) by simp
  also have "\<dots> = filter (\<lambda>x. f k = f x) ys" by (rule filter_cong) auto
  finally show "filter (\<lambda>x. f k = f x) (sort_key f xs) = filter (\<lambda>x. f k = f x) ys" .
qed

lemma map_sort_key_sort:
  fixes f :: "'a \<Rightarrow> 'k::linorder"
  shows "map f (sort_key f xs) = sort (map f xs)"
  by (rule properties_for_sort [symmetric]) simp_all

lemma map_sort_key_perm:
  fixes f :: "'a \<Rightarrow> 'k::linorder"
  assumes "mset ys = mset xs"
  shows "map f (sort_key f ys) = map f (sort_key f xs)"
proof -
  have "mset (map f ys) = mset (map f xs)" using assms by simp
  then have "sort (map f ys) = sort (map f xs)"
    by (intro properties_for_sort) simp_all
  then show ?thesis by (simp add: map_sort_key_sort)
qed

lemma filter_key_le1:
  "distinct (map f xs) \<Longrightarrow> length (filter (\<lambda>x. f x = k) xs) \<le> 1"
  by (induction xs) (auto simp: filter_empty_conv image_iff)

lemma mset_eq_short:
  "length xs \<le> 1 \<Longrightarrow> mset ys = mset xs \<Longrightarrow> ys = xs"
  by (cases xs; cases ys) (auto simp: Suc_le_eq dest: arg_cong [where f = size])

lemma extract_zip:
  "zip (c_times (extractChromatogramData data))
       (zip (c_intensities (extractChromatogramData data)) (c_labels (extractChromatogramData data))) =
   map (\<lambda>r. (retentionTime r, intensity r, name r)) (js_sort by_time data)"
  by (simp add: extract_sorted zip_map_map zip_same_conv_map)

text \<open>
  Claim C4, as amended. For rows whose retention times are not NaN (every validated row
  sequence), the series of \<open>extractChromatogramData\<close> is sorted non-decreasing by
  retention time, and rows with the same retention time keep their input order (second
  conjunct: at every time \<open>t\<close>, the intensities and labels emitted at \<open>t\<close> are those of
  the input rows at \<open>t\<close>, in input order). For every permutation of the input rows the
  times array is the same; the whole output is the same when the permutation keeps the
  relative order of the rows that share a retention time, in particular when no two
  rows share a retention time.
\<close>

theorem extractChromatogramData_spec:
  assumes valid: "\<forall>r\<in>set data. \<not> isNaN (retentionTime r)"
  shows "sorted_wrt (\<lambda>a b. \<not> js_lt b a) (c_times (extractChromatogramData data))
    \<and> (\<forall>t. map snd (filter (\<lambda>(t', il). t' = t)
               (zip (c_times (extractChromatogramData data))
                 (zip (c_intensities (extractChromatogramData data))
                      (c_labels (extractChromatogramData data))))) =
             map (\<lambda>r. (intensity r, name r)) (filter (\<lambda>r. retentionTime r = t) data))
    \<and> (\<forall>data'. mset data' = mset data \<longrightarrow>
          c_times (extractChromatogramData data') = c_times (extractChromatogramData data))
    \<and> (\<forall>data'. mset data' = mset data \<and>
          (\<forall>t. filter (\<lambda>r. retentionTime r = t) data' = filter (\<lambda>r. retentionTime r = t) data) \<longrightarrow>
          extractChromatogramData data' = extractChromatogramData data)
    \<and> (\<forall>data'. mset data' = mset data \<and> distinct (map retentionTime data) \<longrightarrow>
          extractChromatogramData data' = extractChromatogramData data)"
proof -
  have s: "js_sort by_time data = sort_key time_key data"
    by (rule js_sort_key [OF valid])
  have s': "js_sort by_time data' = sort_key time_key data'" if "mset data' = mset data" for data'
  proof (rule js_sort_key)
    from that have "set data' = set data" by (rule mset_eq_setD)
    with valid show "\<forall>r\<in>set data'. \<not> isNaN (retentionTime r)" by simp
  qed
  have key_eq: "(\<lambda>r. time_key r = rt_key t) = (\<lambda>r. retentionTime r = t)" for t
    by (simp add: time_key_def rt_key_inj)
  have stable: "filter (\<lambda>r. retentionTime r = t) (sort_key time_key xs) =
      filter (\<lambda>r. retentionTime r = t) xs" for t xs
    using sort_key_stable [of time_key "rt_key t" xs] by (simp add: key_eq)
  have 1: "sorted_wrt (\<lambda>a b. \<not> js_lt b a) (c_times (extractChromatogramData data))"
    using times_sorted [OF valid] by (simp add: extract_sorted s)
  have 2: "map snd (filter (\<lambda>(t', il). t' = t)
               (zip (c_times (extractChromatogramData data))
                 (zip (c_intensities (extractChromatogramData data))
                      (c_labels (extractChromatogramData data))))) =
             map (\<lambda>r. (intensity r, name r)) (filter (\<lambda>r. retentionTime r = t) data)" for t
  proof -
    have "map snd (filter (\<lambda>(t', il). t' = t)
            (map (\<lambda>r. (retentionTime r, intensity r, name r)) (sort_key time_key data))) =
          map (\<lambda>r. (intensity r, name r)) (filter (\<lambda>r. retentionTime r = t) (sort_key time_key data))"
      by (simp add: filter_map comp_def)
    then show ?thesis by (simp add: extract_zip s stable)
  qed
  have 3: "c_times (extractChromatogramData data') = c_times (extractChromatogramData data)"
    if "mset data' = mset data" for data'
  proof -
    have e: "map time_key xs = map rt_key (map retentionTime xs)" for xs
      by (simp add: time_key_def [abs_def] comp_def)
    have i: "inj rt_key" by (rule injI) (simp add: rt_key_inj)
    have "map rt_key (map retentionTime (sort_key time_key data')) =
        map rt_key (map retentionTime (sort_key time_key data))"
      using map_sort_key_perm [OF that, of time_key] unfolding e .
    then have "map retentionTime (sort_key time_key data') =
        map retentionTime (sort_key time_key data)"
      using inj_map_eq_map [OF i] by blast
    then show ?thesis by (simp add: extract_sorted s s' [OF that])
  qed
  have 4: "extractChromatogramData data' = extractChromatogramData data"
    if m: "mset data' = mset data"
      and f: "\<And>t. filter (\<lambda>r. retentionTime r = t) data' = filter (\<lambda>r. retentionTime r = t) data"
    for data'
  proof -
    have "filter (\<lambda>r. time_key r = k) data' = filter (\<lambda>r. time_key r = k) data" for k
    proof (cases "k \<in> range rt_key")
      case True
      then obtain t where "k = rt_key t" by auto
      then show ?thesis using f [of t] by (simp add: key_eq)
    next
      case False
      then have "\<And>r. time_key r \<noteq> k" by (auto simp: time_key_def)
      then show ?thesis by simp
    qed
    then have "sort_key time_key data' = sort_key time_key data"
      by (rule sort_key_perm_eq [OF m])
    then show ?thesis by (simp add: extract_sorted s s' [OF m])
  qed
  have 5: "extractChromatogramData data' = extractChromatogramData data"
    if m: "mset data' = mset data" and d: "distinct (map retentionTime data)" for data'
  proof (rule 4 [OF m])
    fix t
    have "mset (filter (\<lambda>r. retentionTime r = t) data') = mset (filter (\<lambda>r. retentionTime r = t) data)"
      using m by simp
    then show "filter (\<lambda>r. retentionTime r = t) data' = filter (\<lambda>r. retentionTime r = t) data"
      by (rule mset_eq_short [OF filter_key_le1 [OF d]])
  qed
  from 1 2 3 4 5 show ?thesis by blast
qed

theorem extractChromatogramData_spec_witness:
  "list_all (\<lambda>r. \<not> isNaN (retentionTime r))
     [\<lparr>name = ''B'', retentionTime = Fin 2, intensity = Fin 20, additionalData = []\<rparr>,
      \<lparr>name = ''A'', retentionTime = Fin 1, intensity = Fin 10, additionalData = []\<rparr>]
   \<and> sorted_wrt (\<lambda>a b. \<not> js_lt b a) (c_times (extractChromatogramData
     [\<lparr>name = ''B'', retentionTime = Fin 2, intensity = Fin 20, additionalData = []\<rparr>,
      \<lparr>name = ''A'', retentionTime = Fin 1, intensity = Fin 10, additionalData = []\<rparr>]))
   \<and> extractChromatogramData
     [\<lparr>name = ''A'', retentionTime = Fin 1, intensity = Fin 10, additionalData = []\<rparr>,
      \<lparr>name = ''B'', retentionTime = Fin 2, intensity = Fin 20, additionalData = []\<rparr>] =
     extractChromatogramData
     [\<lparr>name = ''B'', retentionTime = Fin 2, intensity = Fin 20, additionalData = []\<rparr>,
      \<lparr>name = ''A'', retentionTime = Fin 1, intensity = Fin 10, additionalData = []\<rparr>]"
proof -
  let ?A = "\<lparr>name = ''A'', retentionTime = Fin 1, intensity = Fin 10, additionalData = []\<rparr>"
  let ?B = "\<lparr>name = ''B'', retentionTime = Fin 2, intensity = Fin 20, additionalData = []\<rparr>"
  have v: "\<forall>r\<in>set [?B, ?A]. \<not> isNaN (retentionTime r)" by simp
  have m: "mset [?A, ?B] = mset [?B, ?A]" by simp
  have d: "distinct (map retentionTime [?B, ?A])" by simp
  have l: "list_all (\<lambda>r. \<not> isNaN (retentionTime r)) [?B, ?A]" by simp
  from extractChromatogramData_spec [OF v] m d l show ?thesis by blast
qed

text \<open>
  The claim as stated fails: two rows with the same retention time come out in their
  input order, so swapping them in the input swaps intensities and labels in the output.
\<close>

theorem extractChromatogramData_permutation_counterexample:
  "mset [\<lparr>name = ''B'', retentionTime = Fin 1, intensity = Fin 20, additionalData = []\<rparr>,
         \<lparr>name = ''A'', retentionTime = Fin 1, intensity = Fin 10, additionalData = []\<rparr>] =
   mset [\<lparr>name = ''A'', retentionTime = Fin 1, intensity = Fin 10, additionalData = []\<rparr>,
         \<lparr>name = ''B'', retentionTime = Fin 1, intensity = Fin 20, additionalData = []\<rparr>]
   \<and> extractChromatogramData
        [\<lparr>name = ''B'', retentionTime = Fin 1, intensity = Fin 20, additionalData = []\<rparr>,
         \<lparr>name = ''A'', retentionTime = Fin 1, intensity = Fin 10, additionalData = []\<rparr>] =
       \<lparr>c_times = [Fin 1, Fin 1], c_intensities = [Fin 20, Fin 10], c_labels = [''B'', ''A'']\<rparr>
   \<and> extractChromatogramData
        [\<lparr>name = ''A'', retentionTime = Fin 1, intensity = Fin 10, additionalData = []\<rparr>,
         \<lparr>name = ''B'', retentionTime = Fin 1, intensity = Fin 20, additionalData = []\<rparr>] =
       \<lparr>c_times = [Fin 1, Fin 1], c_intensities = [Fin 10, Fin 20], c_labels = [''A'', ''B'']\<rparr>"
  by (simp add: extractChromatogramData_def js_sort_def js_sub_def js_gt_def)

section \<open>Mass spectra aggregate: proofs\<close>

lemma rev_remdups_snoc:
  "rev (remdups (rev (xs @ [x]))) =
     (if x \<in> set xs then rev (remdups (rev xs)) else rev (remdups (rev xs)) @ [x])"
  by simp






lemma extractMassSpectraData_example: "extractMassSpectraData
     [\<lparr>name = ''B'', retentionTime = Fin 1, intensity = Fin 5, additionalData = []\<rparr>,
      \<lparr>name = ''A'', retentionTime = Fin 2, intensity = Fin 10, additionalData = []\<rparr>,
      \<lparr>name = ''B'', retentionTime = Fin 3, intensity = Fin 7, additionalData = []\<rparr>] =
   \<lparr>s_metabolites = [''B'', ''A''], s_intensities = [Fin 6, Fin 10]\<rparr>"
  by (simp add: extractMassSpectraData_def spectra_step_def map_has_def map_set_def map_push_def
      map_keys_def map_values_def average_def)

section \<open>processData: proofs\<close>

text \<open>
  Claim C9, as amended. \<open>processData\<close> performs no recovery: what its body raises, the
  caller gets (a value that is not iterable raises a TypeError, which is thrown again).
  An array of rows never raises; the empty series in particular gives empty outputs,
  and \<open>findPeaks\<close> and \<open>calculateArea\<close> return the empty list and \<open>0\<close> on it.
\<close>

theorem processData_spec:
  "processData None = Inl TypeError
   \<and> processData data = processData_try data
   \<and> processData (Some rows) =
       Inr \<lparr>chromatogramData = extractChromatogramData rows,
            massSpectraData = extractMassSpectraData rows,
            metabolites = extractMetabolites rows\<rparr>
   \<and> processData (Some []) =
       Inr \<lparr>chromatogramData = \<lparr>c_times = [], c_intensities = [], c_labels = []\<rparr>,
            massSpectraData = \<lparr>s_metabolites = [], s_intensities = []\<rparr>,
            metabolites = []\<rparr>
   \<and> findPeaks [] t = []
   \<and> calculateArea [] [] = Fin 0"
proof -
  have a: "processData data = processData_try data"
    by (simp add: processData_def split: sum.splits)
  have b: "processData_try None = Inl TypeError"
    by (simp add: processData_try_def on_array_def)
  have c: "processData_try (Some rows) =
       Inr \<lparr>chromatogramData = extractChromatogramData rows,
            massSpectraData = extractMassSpectraData rows,
            metabolites = extractMetabolites rows\<rparr>" for rows
    by (simp add: processData_try_def on_array_def)
  have d: "extractChromatogramData [] = \<lparr>c_times = [], c_intensities = [], c_labels = []\<rparr>"
    "extractMassSpectraData [] = \<lparr>s_metabolites = [], s_intensities = []\<rparr>"
    "extractMetabolites [] = []"
    by (simp_all add: extractChromatogramData_def js_sort_def extractMassSpectraData_def
        map_keys_def map_values_def extractMetabolites_def)
  have e: "findPeaks [] t = []"
    by (simp add: findPeaks_def findPeaks_loop.simps)
  have f: "calculateArea [] [] = Fin 0"
    by (simp add: calculateArea_def calculateArea_loop.simps)
  show ?thesis
    using a b c [of rows] c [of "[]"] d e f by (simp add: processData_def)
qed

text \<open>The claim as stated fails: on the empty series \<open>processData\<close> raises nothing.\<close>

theorem processData_empty_counterexample:
  "\<not> isl (processData (Some []))"
  by (simp add: processData_def processData_try_def on_array_def)

section \<open>validateData: proofs\<close>





















section \<open>Pathway graph: proofs\<close>

lemma cy_add_Nil [simp]: "cy_add g [] = g"
  by (simp add: cy_add_def)

lemma cy_add_Cons: "cy_add g (e # es) = cy_add (cy_add1 g e) es"
  by (simp add: cy_add_def)






lemma ids_cy_add1: "el_id ` set (cy_add1 g e) = insert (el_id e) (el_id ` set g)"
  by (auto simp: cy_add1_def hasElementWithId_def)








lemma filter_id_cy_add1:
  "hasElementWithId g i \<Longrightarrow> filter (\<lambda>e. el_id e = i) (cy_add1 g e) = filter (\<lambda>e. el_id e = i) g"
  by (auto simp: cy_add1_def hasElementWithId_def)

lemma filter_id_cy_add:
  "hasElementWithId g i \<Longrightarrow> filter (\<lambda>e. el_id e = i) (cy_add g es) = filter (\<lambda>e. el_id e = i) g"
proof (induction es arbitrary: g)
  case Nil
  then show ?case by simp
next
  case (Cons e es)
  from Cons.prems have "hasElementWithId (cy_add1 g e) i"
    using ids_cy_add1 [of g e] by (simp add: hasElementWithId_def)
  from Cons.IH [OF this] show ?case
    by (simp add: cy_add_Cons filter_id_cy_add1 [OF Cons.prems])
qed















lemma addMetaboliteToPathway_example:
  "addMetaboliteToPathway ''Lactate'' ''LDH1''
     (addMetaboliteToPathway ''Lactate'' ''LDH1'' \<lparr>initialized = True, cy = Some []\<rparr>) =
   \<lparr>initialized = True,
    cy = Some [Node ''m_Lactate'' ''Lactate'' ''metabolite'',
               Node ''g_LDH1'' ''LDH1'' ''gene'',
               Edge ''e_Lactate_LDH1'' ''m_Lactate'' ''g_LDH1'' ''associated with'',
               Node ''p_Fermentation'' ''Fermentation'' ''pathway'',
               Edge ''e_Lactate_Fermentation'' ''m_Lactate'' ''p_Fermentation'' ''part of'',
               Node ''r_Lactate_0'' (''Pyruvate '' @ arrow @ '' Lactate'') ''reaction'',
               Edge ''e_Lactate_reaction_0'' ''m_Lactate'' ''r_Lactate_0'' ''participates in'']\<rparr>"
  by code_simp

section \<open>Compound lookup: proofs\<close>



lemma queueRequest_Inr:
  "fst (queueRequest net url st) = Inr b \<longleftrightarrow>
     (\<exists>code. net (length (requests st)) url = Status code b \<and> 200 \<le> code \<and> code \<le> 299)"
  by (auto simp: queueRequest_def Let_def split: response.splits)


lemma first_cid_None:
  "(\<exists>s. first_cid b = Inr (Some s)) \<longleftrightarrow> (\<exists>c cs p. b = Json (Some (Some (c # cs))) p)"
  by (auto simp: first_cid_def split: body.splits option.splits list.splits)











section \<open>Request queue: proofs\<close>

lemma limiter_inv_init: "limiter_inv limiter_init"
  by (simp add: limiter_inv_def limiter_init_def)

lemma workers_cases:
  assumes "length ws \<le> 1"
  obtains "ws = []" | url where "ws = [AwaitFetch url]" | d where "ws = [AwaitDelay d]"
proof (cases ws)
  case Nil
  then show ?thesis using that by simp
next
  case (Cons w ws')
  with assms have "ws = [w]" by simp
  then show ?thesis using that by (cases w) auto
qed

lemma dispatch_ok:
  assumes "successively spaced ds" "list_all (\<lambda>d. snd d \<le> n) ds"
    and "ds = [] \<or> snd (last ds) + requestDelay \<le> n"
  shows "successively spaced (ds @ [(url, n)])" "list_all (\<lambda>d. snd d \<le> n) (ds @ [(url, n)])"
  using assms by (auto simp: successively_append_iff spaced_def)

lemma limiter_inv_Enqueue:
  assumes "limiter_inv s"
  shows "limiter_inv (step (Enqueue url) s)"
proof -
  from assms have "length (workers s) \<le> 1" by (simp add: limiter_inv_def)
  then show ?thesis
  proof (cases rule: workers_cases)
    case 1
    with assms have q: "isProcessingQueue s = False" by (simp add: limiter_inv_def)
    show ?thesis
    proof (cases "requestQueue s")
      case Nil
      with assms 1 q show ?thesis
        using dispatch_ok [of "dispatched s" "now s" url]
        by (auto simp: limiter_inv_def queueRequest_call_def processQueue_def loop_head_def)
    next
      case (Cons u rest)
      with assms 1 q show ?thesis
        using dispatch_ok [of "dispatched s" "now s" u]
        by (auto simp: limiter_inv_def queueRequest_call_def processQueue_def loop_head_def)
    qed
  next
    case (2 u)
    with assms show ?thesis
      by (auto simp: limiter_inv_def queueRequest_call_def processQueue_def)
  next
    case (3 d)
    with assms show ?thesis
      by (auto simp: limiter_inv_def queueRequest_call_def processQueue_def)
  qed
qed

lemma limiter_inv_FetchSettled:
  assumes "limiter_inv s"
  shows "limiter_inv (step (FetchSettled i) s)"
proof -
  from assms have "length (workers s) \<le> 1" by (simp add: limiter_inv_def)
  then show ?thesis
  proof (cases rule: workers_cases)
    case 1
    with assms show ?thesis by simp
  next
    case (2 u)
    have "snd (last (dispatched s)) \<le> now s" if "dispatched s \<noteq> []"
      using assms that by (auto simp: limiter_inv_def list_all_iff)
    with assms 2 show ?thesis
      by (cases i) (auto simp: limiter_inv_def)
  next
    case (3 d)
    with assms show ?thesis by (cases i) simp_all
  qed
qed

lemma limiter_inv_TimerFired:
  assumes "limiter_inv s"
  shows "limiter_inv (step (TimerFired i) s)"
proof -
  from assms have "length (workers s) \<le> 1" by (simp add: limiter_inv_def)
  then show ?thesis
  proof (cases rule: workers_cases)
    case 1
    with assms show ?thesis by simp
  next
    case (2 u)
    with assms show ?thesis by (cases i) simp_all
  next
    case (3 d)
    show ?thesis
    proof (cases "i = 0 \<and> d \<le> now s")
      case False
      with assms 3 show ?thesis by (cases i) auto
    next
      case True
      show ?thesis
      proof (cases "requestQueue s")
        case Nil
        with assms 3 True show ?thesis
          by (auto simp: limiter_inv_def loop_head_def)
      next
        case (Cons u rest)
        with assms 3 True show ?thesis
          using dispatch_ok [of "dispatched s" "now s" u]
          by (auto simp: limiter_inv_def loop_head_def)
      qed
    qed
  qed
qed

lemma limiter_inv_Tick:
  assumes "limiter_inv s"
  shows "limiter_inv (step (Tick d) s)"
proof -
  from assms have "length (workers s) \<le> 1" by (simp add: limiter_inv_def)
  then show ?thesis
  proof (cases rule: workers_cases)
    case 1
    with assms show ?thesis by (auto simp: limiter_inv_def list_all_iff)
  next
    case (2 u)
    with assms show ?thesis by (auto simp: limiter_inv_def list_all_iff)
  next
    case (3 d')
    with assms show ?thesis by (auto simp: limiter_inv_def list_all_iff)
  qed
qed

lemma limiter_inv_step: "limiter_inv s \<Longrightarrow> limiter_inv (step e s)"
  by (cases e) (simp_all only: limiter_inv_Enqueue limiter_inv_FetchSettled
      limiter_inv_TimerFired limiter_inv_Tick)

lemma limiter_inv_run: "limiter_inv s \<Longrightarrow> limiter_inv (run es s)"
  unfolding run_def by (induction es arbitrary: s) (simp_all add: limiter_inv_step)

lemma enqueued_loop_head: "enqueued (snd (loop_head s)) = enqueued s"
  by (simp add: loop_head_def split: list.splits)

lemma enqueued_processQueue: "enqueued (processQueue s) = enqueued s"
  using enqueued_loop_head [of "s\<lparr>isProcessingQueue := True\<rparr>"]
  by (auto simp: processQueue_def split: prod.splits option.splits)

lemma enqueued_step: "enqueued (step e s) = enqueued s @ enqueue_url e"
proof (cases e)
  case (Enqueue url)
  then show ?thesis by (simp add: queueRequest_call_def enqueued_processQueue)
next
  case (FetchSettled i)
  then show ?thesis by (simp split: worker.splits)
next
  case (TimerFired i)
  then show ?thesis
    using enqueued_loop_head [of s]
    by (auto split: worker.splits prod.splits option.splits)
next
  case (Tick d)
  then show ?thesis by simp
qed

lemma enqueued_run: "enqueued (run es s) = enqueued s @ concat (map enqueue_url es)"
  unfolding run_def by (induction es arbitrary: s) (simp_all add: enqueued_step)

text \<open>
  Claim C10. In every state the queue can reach from its initial state, whatever the
  order in which callers enqueue requests, responses arrive, timers fire and time
  passes: at most one request is in flight; the URLs enqueued are those of the enqueue
  events, in order, and the URLs dispatched so far, followed by the queue, are that
  sequence (requests go out first in, first out, none skipped); and two successive
  dispatches are at least \<open>requestDelay\<close>, which is 300 milliseconds, apart.
\<close>

theorem rate_limiter:
  "length (in_flight (run es limiter_init)) \<le> 1
   \<and> enqueued (run es limiter_init) = concat (map enqueue_url es)
   \<and> map fst (dispatched (run es limiter_init)) @ requestQueue (run es limiter_init) =
       enqueued (run es limiter_init)
   \<and> successively spaced (dispatched (run es limiter_init))
   \<and> requestDelay = 300"
proof -
  have inv: "limiter_inv (run es limiter_init)"
    by (rule limiter_inv_run [OF limiter_inv_init])
  then have "length (workers (run es limiter_init)) \<le> 1"
    by (simp add: limiter_inv_def)
  then have 1: "length (in_flight (run es limiter_init)) \<le> 1"
    by (cases rule: workers_cases) (simp_all add: in_flight_def)
  have 2: "enqueued (run es limiter_init) = concat (map enqueue_url es)"
    by (simp add: enqueued_run limiter_init_def)
  from inv 1 2 show ?thesis
    by (simp add: limiter_inv_def requestDelay_def)
qed

lemma rate_limiter_example:
  "run [Enqueue ''a'', Enqueue ''b'', Tick 10, FetchSettled 0, Tick 100, TimerFired 0, Tick 200,
        TimerFired 0, Enqueue ''c'', FetchSettled 0, Tick 300, TimerFired 0, Tick 5, Enqueue ''d'']
     limiter_init =
   \<lparr>requestQueue = [''d''], isProcessingQueue = True, workers = [AwaitFetch ''c''], now = 615,
    enqueued = [''a'', ''b'', ''c'', ''d''],
    dispatched = [(''a'', 0), (''b'', 310), (''c'', 610)]\<rparr>"
  by code_simp

end
